theory Spec2Isabelle
  imports
    Main
    "HOL-Library.Sublist"
    "HOL-Library.Multiset"
    "HOL-Library.Char_ord"
    "HOL-Library.List_Lexorder"
begin

section \<open>Values, records and errors\<close>

text \<open>
  The dashboard (\<^verbatim>\<open>app.py\<close>) works on the dictionaries that \<^verbatim>\<open>response.json()\<close> returns.
  A field of a feedback record holds a JSON scalar: \<^verbatim>\<open>null\<close>, a boolean, an integer
  or a string. Numbers with a fraction and nested arrays or objects as field values are
  outside the model.

  A Python \<^verbatim>\<open>str\<close> is a \<open>string\<close>: the bytes of its UTF-8 encoding. Equality, the
  substring test, the order of two strings and \<^verbatim>\<open>rstrip(".")\<close> give the same answer on
  the encodings as on the strings themselves. \<^verbatim>\<open>str.lower\<close> follows the Unicode case
  tables, which are no part of this development: the functions that call it take the case
  mapping as their first argument \<open>lower\<close>, and what is proved of them holds for every
  such mapping. \<open>ascii_lower\<close> is what \<^verbatim>\<open>str.lower\<close> does on ASCII text; it stands for
  the mapping in the examples, whose texts are ASCII.
\<close>

datatype pyval = PNone | PBool bool | PInt int | PStr string

type_synonym feedback = "string \<rightharpoonup> pyval"

datatype py_error =
    KeyError string | AttributeError string | TypeError string | OverflowError string
  | MemoryError

text \<open>\<^verbatim>\<open>d.get(k, default)\<close>\<close>

definition dict_get :: "feedback \<Rightarrow> string \<Rightarrow> pyval \<Rightarrow> pyval" where
  "dict_get d k dflt = (case d k of None \<Rightarrow> dflt | Some v \<Rightarrow> v)"

text \<open>\<^verbatim>\<open>d[k]\<close>\<close>

definition dict_item :: "feedback \<Rightarrow> string \<Rightarrow> py_error + pyval" where
  "dict_item d k = (case d k of None \<Rightarrow> Inl (KeyError k) | Some v \<Rightarrow> Inr v)"

text \<open>\<^verbatim>\<open>s.rstrip(chars)\<close>: drops the longest suffix made of characters of \<open>chars\<close>.\<close>

definition rstrip :: "string \<Rightarrow> string \<Rightarrow> string" where
  "rstrip chars s = rev (dropWhile (\<lambda>c. c \<in> set chars) (rev s))"

text \<open>
  \<^verbatim>\<open>v.rstrip(chars)\<close> on a value: only a \<^verbatim>\<open>str\<close> has the method, any other value
  raises \<^verbatim>\<open>AttributeError\<close>.
\<close>

definition val_rstrip :: "pyval \<Rightarrow> string \<Rightarrow> py_error + string" where
  "val_rstrip v chars =
     (case v of PStr s \<Rightarrow> Inr (rstrip chars s) | _ \<Rightarrow> Inl (AttributeError ''rstrip''))"

text \<open>\<^verbatim>\<open>str.lower\<close> on ASCII text: the letters A to Z move to a to z.\<close>

definition ascii_lower_char :: "char \<Rightarrow> char" where
  "ascii_lower_char c =
     (if CHR ''A'' \<le> c \<and> c \<le> CHR ''Z'' then char_of (of_char c + (32::nat)) else c)"

definition ascii_lower :: "string \<Rightarrow> string" where
  "ascii_lower s = map ascii_lower_char s"

text \<open>
  \<^verbatim>\<open>v.lower()\<close> on a value, for the case mapping \<open>lower\<close>: only a \<^verbatim>\<open>str\<close> has the
  method, any other value raises \<^verbatim>\<open>AttributeError\<close>.
\<close>

definition val_lower :: "(string \<Rightarrow> string) \<Rightarrow> pyval \<Rightarrow> py_error + string" where
  "val_lower lower v =
     (case v of PStr s \<Rightarrow> Inr (lower s) | _ \<Rightarrow> Inl (AttributeError ''lower''))"

text \<open>\<^verbatim>\<open>needle in hay\<close> on two strings: \<open>needle\<close> occurs in \<open>hay\<close> as a contiguous run.\<close>

fun str_contains :: "string \<Rightarrow> string \<Rightarrow> bool" where
  "str_contains [] needle = (needle = [])"
| "str_contains (c # cs) needle = (prefix needle (c # cs) \<or> str_contains cs needle)"

text \<open>
  \<^verbatim>\<open>v == i\<close> for an integer \<open>i\<close>: an \<^verbatim>\<open>int\<close> compares by value, \<^verbatim>\<open>True\<close> and
  \<^verbatim>\<open>False\<close> are the integers 1 and 0, \<^verbatim>\<open>None\<close> and a string are never equal to an
  integer. \<^verbatim>\<open>v in xs\<close> on a list tries the elements in turn.
\<close>

fun py_eq_int :: "pyval \<Rightarrow> int \<Rightarrow> bool" where
  "py_eq_int (PInt n) i = (n = i)"
| "py_eq_int (PBool b) i = ((if b then 1 else 0) = i)"
| "py_eq_int PNone i = False"
| "py_eq_int (PStr s) i = False"

definition in_int_list :: "pyval \<Rightarrow> int list \<Rightarrow> bool" where
  "in_int_list v xs = list_ex (py_eq_int v) xs"

section \<open>Sentiment normalisation and the feedback filter\<close>

text \<open>
  \<^verbatim>\<open>
  def normalize_sentiment(feedback):
      return feedback.get("sentiment", "Unknown").rstrip(".")
  \<close>
\<close>

definition normalize_sentiment :: "feedback \<Rightarrow> py_error + string" where
  "normalize_sentiment feedback =
     val_rstrip (dict_get feedback ''sentiment'' (PStr ''Unknown'')) ''.''"

text \<open>
  The condition of the comprehension in \<^verbatim>\<open>filter_feedbacks\<close>, with the left-to-right,
  short-circuit evaluation of \<^verbatim>\<open>and\<close> and \<^verbatim>\<open>or\<close>:
  \<^verbatim>\<open>
      fb["rating"] in rating_filter
      and normalize_sentiment(fb) in sentiment_filter
      and (not search_query or
           search_query.lower() in fb.get("review", "").lower() or
           search_query.lower() in fb.get("ai_summary", "").lower())
  \<close>
  The filters are the lists that \<^verbatim>\<open>st.multiselect\<close> returns, the query is the string
  of \<^verbatim>\<open>st.text_input\<close>, and \<open>lower\<close> is \<^verbatim>\<open>str.lower\<close>.
\<close>

definition keeps ::
  "(string \<Rightarrow> string) \<Rightarrow> feedback \<Rightarrow> int list \<Rightarrow> string list \<Rightarrow> string \<Rightarrow> py_error + bool" where
  "keeps lower fb rating_filter sentiment_filter search_query =
     (case dict_item fb ''rating'' of
        Inl e \<Rightarrow> Inl e
      | Inr r \<Rightarrow>
          if \<not> in_int_list r rating_filter then Inr False
          else
            (case normalize_sentiment fb of
               Inl e \<Rightarrow> Inl e
             | Inr s \<Rightarrow>
                 if s \<notin> set sentiment_filter then Inr False
                 else if search_query = [] then Inr True
                 else
                   (case val_lower lower (dict_get fb ''review'' (PStr [])) of
                      Inl e \<Rightarrow> Inl e
                    | Inr review \<Rightarrow>
                        if str_contains review (lower search_query) then Inr True
                        else
                          (case val_lower lower (dict_get fb ''ai_summary'' (PStr [])) of
                             Inl e \<Rightarrow> Inl e
                           | Inr summary \<Rightarrow>
                               Inr (str_contains summary (lower search_query))))))"

text \<open>
  \<^verbatim>\<open>
  def filter_feedbacks(feedbacks, rating_filter, sentiment_filter, search_query):
      return [fb for fb in feedbacks if <condition>]
  \<close>
  The comprehension walks the list from the front; the first record whose condition
  raises ends the call with that error.
\<close>

fun filter_feedbacks ::
  "(string \<Rightarrow> string) \<Rightarrow> feedback list \<Rightarrow> int list \<Rightarrow> string list \<Rightarrow> string \<Rightarrow>
     py_error + feedback list" where
  "filter_feedbacks lower [] rating_filter sentiment_filter search_query = Inr []"
| "filter_feedbacks lower (fb # feedbacks) rating_filter sentiment_filter search_query =
     (case keeps lower fb rating_filter sentiment_filter search_query of
        Inl e \<Rightarrow> Inl e
      | Inr b \<Rightarrow>
          (case filter_feedbacks lower feedbacks rating_filter sentiment_filter search_query of
             Inl e \<Rightarrow> Inl e
           | Inr kept \<Rightarrow> Inr (if b then fb # kept else kept)))"

section \<open>The API client\<close>

text \<open>
  \<^verbatim>\<open>requests.get\<close> either raises (connection refused, timeout, ...) or returns a response
  with a status code, whose \<^verbatim>\<open>json()\<close> either raises (the body is not JSON) or returns
  the parsed body. The network is a parameter of the model: a function from the request
  that is sent to what comes back. \<^verbatim>\<open>st.error(msg)\<close> shows a banner; the banners a call
  shows are returned beside its value.
\<close>

datatype exn_kind = ConnectionError | Timeout | JSONDecodeError | OtherException

datatype exn = Exn (kind: exn_kind) (message: string)

record request =
  url :: string
  headers :: "(string \<times> string option) list"
  params :: "(string \<times> int) list"
  timeout :: nat

datatype 'a response = Response (status_code: int) (json: "exn + 'a")

type_synonym 'a network = "request \<Rightarrow> exn + 'a response"

text \<open>
  \<^verbatim>\<open>
  def fetch_analytics():
      try:
          response = requests.get(f"{API_URL}/admin/analytics",
                                  headers={"X-API-Key": API_KEY}, timeout=10)
          return response.json() if response.status_code == 200 else None
      except Exception as e:
          st.error(f"Analytics fetch error: {str(e)}")
          return None
  \<close>
  The conditional expression tests the status first, so \<^verbatim>\<open>json()\<close> is called on a 200
  response only. \<^verbatim>\<open>API_KEY\<close> is \<^verbatim>\<open>os.getenv("API_KEY")\<close>: a string, or \<^verbatim>\<open>None\<close> when the
  variable is unset. The body of the analytics endpoint is a JSON object, of a type left
  open here; a body that is the JSON value \<^verbatim>\<open>null\<close> is outside the model.
\<close>

definition analytics_request :: "string \<Rightarrow> string option \<Rightarrow> request" where
  "analytics_request API_URL API_KEY =
     \<lparr>url = API_URL @ ''/admin/analytics'', headers = [(''X-API-Key'', API_KEY)],
      params = [], timeout = 10\<rparr>"

definition fetch_analytics :: "'a network \<Rightarrow> string \<Rightarrow> string option \<Rightarrow> 'a option \<times> string list" where
  "fetch_analytics net API_URL API_KEY =
     (case net (analytics_request API_URL API_KEY) of
        Inl e \<Rightarrow> (None, [''Analytics fetch error: '' @ message e])
      | Inr response \<Rightarrow>
          if status_code response = 200 then
            (case json response of
               Inl e \<Rightarrow> (None, [''Analytics fetch error: '' @ message e])
             | Inr body \<Rightarrow> (Some body, []))
          else (None, []))"

text \<open>
  \<^verbatim>\<open>
  def fetch_feedbacks(limit=100):
      try:
          response = requests.get(f"{API_URL}/admin/feedbacks",
                                  headers={"X-API-Key": API_KEY},
                                  params={"limit": limit}, timeout=30)
          return response.json() if response.status_code == 200 else []
      except Exception as e:
          st.error(f"Feedback fetch error: {str(e)}")
          return []
  \<close>
  The body of a 200 response of this endpoint is taken to be a JSON array of records.
\<close>

definition feedbacks_request :: "string \<Rightarrow> string option \<Rightarrow> int \<Rightarrow> request" where
  "feedbacks_request API_URL API_KEY limit =
     \<lparr>url = API_URL @ ''/admin/feedbacks'', headers = [(''X-API-Key'', API_KEY)],
      params = [(''limit'', limit)], timeout = 30\<rparr>"

definition fetch_feedbacks ::
  "feedback list network \<Rightarrow> string \<Rightarrow> string option \<Rightarrow> int \<Rightarrow> feedback list \<times> string list" where
  "fetch_feedbacks net API_URL API_KEY limit =
     (case net (feedbacks_request API_URL API_KEY limit) of
        Inl e \<Rightarrow> ([], [''Feedback fetch error: '' @ message e])
      | Inr response \<Rightarrow>
          if status_code response = 200 then
            (case json response of
               Inl e \<Rightarrow> ([], [''Feedback fetch error: '' @ message e])
             | Inr body \<Rightarrow> (body, []))
          else ([], []))"

text \<open>A server that gives the same answer to every request.\<close>

definition answering :: "exn + 'a response \<Rightarrow> 'a network" where
  "answering outcome req = outcome"

text \<open>What the specification calls a failure of a request.\<close>

definition failed :: "exn + 'a response \<Rightarrow> bool" where
  "failed outcome =
     (case outcome of
        Inl e \<Rightarrow> True
      | Inr response \<Rightarrow> status_code response \<noteq> 200 \<or> isl (json response))"

section \<open>Sorting, filtering and the display cap in \<^verbatim>\<open>main\<close>\<close>

text \<open>
  \<^verbatim>\<open>sorted(xs, key=k, reverse=True)\<close> on keys that are JSON scalars. Python orders two
  strings lexicographically by code point and two numbers (booleans count as 0 and 1) by
  value; every other pair raises \<^verbatim>\<open>TypeError\<close>. A list of fewer than two elements is
  returned without any comparison; a longer one is sorted when its keys are all strings
  or all numbers, and raises otherwise. The sort is stable, and \<^verbatim>\<open>reverse=True\<close> keeps
  that: the list is reversed, sorted in ascending order, and reversed again.
\<close>

definition str_key :: "pyval \<Rightarrow> string option" where
  "str_key v = (case v of PStr s \<Rightarrow> Some s | _ \<Rightarrow> None)"

definition num_key :: "pyval \<Rightarrow> int option" where
  "num_key v =
     (case v of PInt n \<Rightarrow> Some n | PBool b \<Rightarrow> Some (if b then 1 else 0) | _ \<Rightarrow> None)"

definition sorted_reverse :: "('a \<Rightarrow> pyval) \<Rightarrow> 'a list \<Rightarrow> py_error + 'a list" where
  "sorted_reverse key xs =
     (if length xs \<le> 1 then Inr xs
      else if list_all (\<lambda>x. str_key (key x) \<noteq> None) xs then
        Inr (rev (sort_key (\<lambda>x. case str_key (key x) of Some s \<Rightarrow> s | None \<Rightarrow> []) (rev xs)))
      else if list_all (\<lambda>x. num_key (key x) \<noteq> None) xs then
        Inr (rev (sort_key (\<lambda>x. case num_key (key x) of Some n \<Rightarrow> n | None \<Rightarrow> 0) (rev xs)))
      else Inl (TypeError ''<''))"

text \<open>\<^verbatim>\<open>lambda x: x.get("created_at", "")\<close>\<close>

definition created_at_key :: "feedback \<Rightarrow> pyval" where
  "created_at_key x = dict_get x ''created_at'' (PStr [])"

text \<open>
  The feedback section of \<^verbatim>\<open>main\<close>, from the list that \<^verbatim>\<open>fetch_feedbacks()\<close> returned to
  what is put on the page:
  \<^verbatim>\<open>
    feedbacks = fetch_feedbacks()
    if feedbacks:
        feedbacks = sorted(feedbacks, key=lambda x: x.get("created_at", ""), reverse=True)
        rating_filter, sentiment_filter, search_query = render_filters()
        filtered_feedbacks = filter_feedbacks(feedbacks, rating_filter, sentiment_filter,
                                              search_query)
        ... DISPLAYING {len(filtered_feedbacks)} OF {len(feedbacks)} RECORDS ...
        for idx, feedback in enumerate(filtered_feedbacks[:20]):
            render_feedback_item(feedback, idx)
    else:
        ... NO FEEDBACK STREAM DETECTED ...
  \<close>
  The stats bar is written before the loop starts. \<^verbatim>\<open>render_feedback_item\<close> reads the
  fields of the record it is given:
  \<^verbatim>\<open>
    sentiment = normalize_sentiment(feedback)
    rating_display = f"{feedback['rating']} STARS"
    with st.expander(f"[ {rating_display} ] {sentiment.upper()} ... {feedback['created_at'][:10]}"):
        ... {feedback["review"]} ...
        summary = feedback.get("ai_summary", "PROCESSING...")
        rating_display_full = STAR * feedback["rating"] + EMPTY_STAR * (5 - feedback["rating"])
        ...
  \<close>
  so it raises on a record without \<open>rating\<close>, \<open>created_at\<close> or \<open>review\<close>, on a
  \<open>created_at\<close> that cannot be sliced, on a \<open>rating\<close> that is not a number and on a
  \<open>rating\<close> too large to repeat a string that often. The markup of an item is not
  modelled: an item that was rendered is its index and its record.

  The limits of the interpreter: \<open>ssize_max\<close> is \<^verbatim>\<open>sys.maxsize\<close>, the largest index, and
  \<open>alloc_max\<close> is the length of the longest string it can still allocate.
\<close>

record limits =
  ssize_max :: int
  alloc_max :: int

text \<open>
  The length of \<^verbatim>\<open>s * n\<close> for a string \<open>s\<close> of one character: a count that does not fit
  an index raises \<^verbatim>\<open>OverflowError\<close>, a count of zero or less gives the empty string, and
  a string that cannot be allocated raises \<^verbatim>\<open>MemoryError\<close>.
\<close>

definition repeat_len :: "limits \<Rightarrow> int \<Rightarrow> py_error + nat" where
  "repeat_len lim n =
     (if n < - ssize_max lim - 1 \<or> ssize_max lim < n then
        Inl (OverflowError ''cannot fit int into an index-sized integer'')
      else if n \<le> 0 then Inr 0
      else if n \<le> alloc_max lim then Inr (nat n)
      else Inl MemoryError)"

text \<open>
  \<^verbatim>\<open>STAR * feedback["rating"] + EMPTY_STAR * (5 - feedback["rating"])\<close>: the numbers of
  full and of empty stars. A rating that is not a number raises \<^verbatim>\<open>TypeError\<close>; the sum
  of two non-empty strings is a new string.
\<close>

definition star_display :: "limits \<Rightarrow> pyval \<Rightarrow> py_error + nat \<times> nat" where
  "star_display lim rating =
     (case num_key rating of
        None \<Rightarrow> Inl (TypeError ''*'')
      | Some n \<Rightarrow>
          (case repeat_len lim n of
             Inl e \<Rightarrow> Inl e
           | Inr stars \<Rightarrow>
               (case repeat_len lim (5 - n) of
                  Inl e \<Rightarrow> Inl e
                | Inr empties \<Rightarrow>
                    if stars = 0 \<or> empties = 0 \<or> int (stars + empties) \<le> alloc_max lim
                    then Inr (stars, empties)
                    else Inl MemoryError)))"

definition render_feedback_item ::
  "limits \<Rightarrow> feedback \<Rightarrow> nat \<Rightarrow> py_error + nat \<times> feedback" where
  "render_feedback_item lim feedback idx =
     (case normalize_sentiment feedback of
        Inl e \<Rightarrow> Inl e
      | Inr sentiment \<Rightarrow>
     (case dict_item feedback ''rating'' of
        Inl e \<Rightarrow> Inl e
      | Inr rating \<Rightarrow>
     (case dict_item feedback ''created_at'' of
        Inl e \<Rightarrow> Inl e
      | Inr created_at \<Rightarrow>
     (case str_key created_at of
        None \<Rightarrow> Inl (TypeError ''[:10]'')
      | Some date \<Rightarrow>
     (case dict_item feedback ''review'' of
        Inl e \<Rightarrow> Inl e
      | Inr review \<Rightarrow>
     (case star_display lim rating of
        Inl e \<Rightarrow> Inl e
      | Inr stars \<Rightarrow> Inr (idx, feedback)))))))"

text \<open>
  The loop over \<^verbatim>\<open>enumerate(filtered_feedbacks[:20])\<close>: the items rendered, and the error
  that ended the loop if a call raised.
\<close>

fun render_items ::
  "limits \<Rightarrow> (nat \<times> feedback) list \<Rightarrow> (nat \<times> feedback) list \<times> py_error option" where
  "render_items lim [] = ([], None)"
| "render_items lim ((idx, feedback) # rest) =
     (case render_feedback_item lim feedback idx of
        Inl e \<Rightarrow> ([], Some e)
      | Inr item \<Rightarrow> (item # fst (render_items lim rest), snd (render_items lim rest)))"

text \<open>
  What the feedback section puts on the page: the two counts of the stats bar, the items
  rendered, and the error that ended the loop, if any. A \<^verbatim>\<open>sorted\<close> or
  \<^verbatim>\<open>filter_feedbacks\<close> that raises ends the section before anything of it is shown.
\<close>

datatype feed_section =
    NoFeedbackStream
  | FeedbackStream (displaying: nat) (of_records: nat) (rendered: "(nat \<times> feedback) list")
      (raised: "py_error option")

definition feedback_section ::
  "limits \<Rightarrow> (string \<Rightarrow> string) \<Rightarrow> feedback list \<Rightarrow> int list \<Rightarrow> string list \<Rightarrow> string \<Rightarrow>
     py_error + feed_section" where
  "feedback_section lim lower fetched rating_filter sentiment_filter search_query =
     (if fetched = [] then Inr NoFeedbackStream
      else
        (case sorted_reverse created_at_key fetched of
           Inl e \<Rightarrow> Inl e
         | Inr feedbacks \<Rightarrow>
             (case filter_feedbacks lower feedbacks rating_filter sentiment_filter
                     search_query of
                Inl e \<Rightarrow> Inl e
              | Inr filtered_feedbacks \<Rightarrow>
                  Inr (FeedbackStream (length filtered_feedbacks) (length feedbacks)
                         (fst (render_items lim (enumerate 0 (take 20 filtered_feedbacks))))
                         (snd (render_items lim (enumerate 0 (take 20 filtered_feedbacks))))))))"

section \<open>The authentication gate\<close>

text \<open>
  \<^verbatim>\<open>
    api_key_input = st.text_input("API Key", type="password", ...)
    if st.button("AUTHENTICATE", ...):
        if api_key_input == API_KEY:
            st.session_state.authenticated = True
            st.rerun()
        else:
            st.error("ACCESS DENIED - INVALID CREDENTIALS")
  \<close>
  \<^verbatim>\<open>api_key_input\<close> is the string of the text input, \<^verbatim>\<open>button\<close> tells whether the button
  was pressed in this run of the script. \<^verbatim>\<open>==\<close> between the string and \<^verbatim>\<open>API_KEY\<close>
  holds when \<^verbatim>\<open>API_KEY\<close> is that same string, and never when it is \<^verbatim>\<open>None\<close>.
\<close>

record session_state =
  authenticated :: bool

definition render_auth_screen ::
  "session_state \<Rightarrow> string \<Rightarrow> bool \<Rightarrow> string option \<Rightarrow> session_state \<times> string list" where
  "render_auth_screen st api_key_input button API_KEY =
     (if button then
        (if Some api_key_input = API_KEY then (st\<lparr>authenticated := True\<rparr>, [])
         else (st, [''ACCESS DENIED - INVALID CREDENTIALS'']))
      else (st, []))"

section \<open>The data model of the specification\<close>

text \<open>
  A feedback record as the specification describes it: \<open>rating\<close> is an integer, and
  \<open>sentiment\<close>, \<open>review\<close> and \<open>ai_summary\<close> are text or absent. The text of a field
  that is absent is the empty string.
\<close>

definition is_text :: "pyval option \<Rightarrow> bool" where
  "is_text v = (case v of None \<Rightarrow> True | Some (PStr s) \<Rightarrow> True | Some _ \<Rightarrow> False)"

definition rating_of :: "feedback \<Rightarrow> int option" where
  "rating_of fb = (case fb ''rating'' of Some (PInt n) \<Rightarrow> Some n | _ \<Rightarrow> None)"

definition field_text :: "feedback \<Rightarrow> string \<Rightarrow> string option" where
  "field_text fb k =
     (case fb k of None \<Rightarrow> Some [] | Some (PStr s) \<Rightarrow> Some s | Some _ \<Rightarrow> None)"

definition wf_record :: "feedback \<Rightarrow> bool" where
  "wf_record fb =
     (rating_of fb \<noteq> None \<and> is_text (fb ''sentiment'') \<and> is_text (fb ''review'') \<and>
      is_text (fb ''ai_summary''))"

text \<open>A rating in the domain of the specification: one of the five star values.\<close>

definition star_rating :: "feedback \<Rightarrow> bool" where
  "star_rating fb = (case rating_of fb of Some n \<Rightarrow> 1 \<le> n \<and> n \<le> 5 | None \<Rightarrow> False)"

text \<open>A record that can be shown as an item: it has a \<open>created_at\<close> string and a review.\<close>

definition renderable :: "feedback \<Rightarrow> bool" where
  "renderable fb =
     ((case fb ''created_at'' of Some (PStr s) \<Rightarrow> True | _ \<Rightarrow> False) \<and> fb ''review'' \<noteq> None)"

text \<open>
  The filter of the specification, in its words: \<open>q\<close> is case-insensitively a substring
  of \<open>t\<close> (the two are compared after the case mapping \<open>lower\<close>), and the three
  conditions under which a record is returned.
\<close>

definition ci_substring :: "(string \<Rightarrow> string) \<Rightarrow> string \<Rightarrow> string \<Rightarrow> bool" where
  "ci_substring lower q t = (\<exists>pre post. lower t = pre @ lower q @ post)"

definition spec_keeps ::
  "(string \<Rightarrow> string) \<Rightarrow> feedback \<Rightarrow> int set \<Rightarrow> string set \<Rightarrow> string \<Rightarrow> bool" where
  "spec_keeps lower fb R S q =
     ((\<exists>n. rating_of fb = Some n \<and> n \<in> R) \<and>
      (\<exists>s. normalize_sentiment fb = Inr s \<and> s \<in> S) \<and>
      (q = [] \<or>
       (\<exists>t. field_text fb ''review'' = Some t \<and> ci_substring lower q t) \<or>
       (\<exists>t. field_text fb ''ai_summary'' = Some t \<and> ci_substring lower q t)))"

text \<open>
  The sort key of the specification: the \<open>created_at\<close> text of a record, the empty string
  when the field is absent.
\<close>

definition created_text :: "feedback \<Rightarrow> string" where
  "created_text fb = (case field_text fb ''created_at'' of Some t \<Rightarrow> t | None \<Rightarrow> [])"

section \<open>Properties of the string operations\<close>

lemma ascii_lower_char_upper:
  "ascii_lower_char CHR ''A'' = CHR ''a''" "ascii_lower_char CHR ''B'' = CHR ''b''"
  "ascii_lower_char CHR ''C'' = CHR ''c''" "ascii_lower_char CHR ''D'' = CHR ''d''"
  "ascii_lower_char CHR ''E'' = CHR ''e''" "ascii_lower_char CHR ''F'' = CHR ''f''"
  "ascii_lower_char CHR ''G'' = CHR ''g''" "ascii_lower_char CHR ''H'' = CHR ''h''"
  "ascii_lower_char CHR ''I'' = CHR ''i''" "ascii_lower_char CHR ''J'' = CHR ''j''"
  "ascii_lower_char CHR ''K'' = CHR ''k''" "ascii_lower_char CHR ''L'' = CHR ''l''"
  "ascii_lower_char CHR ''M'' = CHR ''m''" "ascii_lower_char CHR ''N'' = CHR ''n''"
  "ascii_lower_char CHR ''O'' = CHR ''o''" "ascii_lower_char CHR ''P'' = CHR ''p''"
  "ascii_lower_char CHR ''Q'' = CHR ''q''" "ascii_lower_char CHR ''R'' = CHR ''r''"
  "ascii_lower_char CHR ''S'' = CHR ''s''" "ascii_lower_char CHR ''T'' = CHR ''t''"
  "ascii_lower_char CHR ''U'' = CHR ''u''" "ascii_lower_char CHR ''V'' = CHR ''v''"
  "ascii_lower_char CHR ''W'' = CHR ''w''" "ascii_lower_char CHR ''X'' = CHR ''x''"
  "ascii_lower_char CHR ''Y'' = CHR ''y''" "ascii_lower_char CHR ''Z'' = CHR ''z''"
  by code_simp+

lemma ascii_lower_char_other: "\<not> (CHR ''A'' \<le> c \<and> c \<le> CHR ''Z'') \<Longrightarrow> ascii_lower_char c = c"
  by (auto simp: ascii_lower_char_def)

lemmas ascii_lower_eval = ascii_lower_def ascii_lower_char_upper ascii_lower_char_other less_eq_char_def

lemma dropWhile_eq_replicate: "\<exists>n. xs = replicate n c @ dropWhile (\<lambda>x. x = c) xs"
proof (induction xs)
  case Nil
  show ?case by simp
next
  case (Cons a xs)
  then obtain n where n: "xs = replicate n c @ dropWhile (\<lambda>x. x = c) xs"
    by blast
  show ?case
  proof (cases "a = c")
    case True
    with n have "a # xs = replicate (Suc n) c @ dropWhile (\<lambda>x. x = c) (a # xs)"
      by simp
    then show ?thesis by blast
  next
    case False
    then have "a # xs = replicate 0 c @ dropWhile (\<lambda>x. x = c) (a # xs)"
      by simp
    then show ?thesis by blast
  qed
qed

lemma rstrip_decomp: "\<exists>n. s = rstrip [c] s @ replicate n c"
proof -
  from dropWhile_eq_replicate[of "rev s" c]
  obtain n where eq: "rev s = replicate n c @ dropWhile (\<lambda>x. x = c) (rev s)" ..
  have "rev (rstrip [c] s @ replicate n c) = replicate n c @ dropWhile (\<lambda>x. x = c) (rev s)"
    by (simp add: rstrip_def)
  also have "\<dots> = rev s"
    by (rule eq[symmetric])
  finally have "rstrip [c] s @ replicate n c = s"
    by (simp only: rev_is_rev_conv)
  then show ?thesis
    by (intro exI[of _ n]) (rule sym)
qed

lemma rstrip_last: "rstrip cs s = [] \<or> last (rstrip cs s) \<notin> set cs"
proof (cases "dropWhile (\<lambda>c. c \<in> set cs) (rev s)")
  case Nil
  then show ?thesis by (simp add: rstrip_def)
next
  case (Cons a as)
  then have "a \<notin> set cs"
    using hd_dropWhile[of "\<lambda>c. c \<in> set cs" "rev s"] by auto
  with Cons show ?thesis by (simp add: rstrip_def)
qed

lemma rstrip_idem: "rstrip cs (rstrip cs s) = rstrip cs s"
  by (simp add: rstrip_def)

lemma str_contains_sublist: "str_contains hay needle \<longleftrightarrow> sublist needle hay"
  by (induction hay) (auto simp: sublist_Cons_right)

lemma ci_substring_code: "ci_substring lower q t = str_contains (lower t) (lower q)"
  by (simp add: ci_substring_def str_contains_sublist sublist_def)

section \<open>Sentiment normalisation\<close>

lemmas normalize_eval = normalize_sentiment_def val_rstrip_def dict_get_def

lemma normalize_sentiment_str:
  "fb ''sentiment'' = Some (PStr s) \<Longrightarrow> normalize_sentiment fb = Inr (rstrip ''.'' s)"
  by (simp add: normalize_eval)

lemma normalize_sentiment_absent:
  "fb ''sentiment'' = None \<Longrightarrow> normalize_sentiment fb = Inr ''Unknown''"
  by (simp add: normalize_eval rstrip_def)

text \<open>
  C4. When the \<open>sentiment\<close> field holds a string \<open>s\<close>, \<open>normalize_sentiment\<close> returns
  \<open>s\<close> without its trailing dots: the result \<open>r\<close> satisfies \<open>s = r\<close> followed by some
  number of dots, and \<open>r\<close> does not end in a dot. When the field is absent it returns
  \<open>Unknown\<close>. In particular \<open>Positive.\<close> and \<open>Positive\<close> both give \<open>Positive\<close>, and the
  empty record gives \<open>Unknown\<close>.
\<close>

theorem normalize_sentiment_strips_trailing_dots:
  "(fb ''sentiment'' = Some (PStr s) \<longrightarrow>
      (\<exists>r n. normalize_sentiment fb = Inr r \<and> s = r @ replicate n CHR ''.'' \<and>
             (r = [] \<or> last r \<noteq> CHR ''.''))) \<and>
   (fb ''sentiment'' = None \<longrightarrow> normalize_sentiment fb = Inr ''Unknown'') \<and>
   normalize_sentiment [''sentiment'' \<mapsto> PStr ''Positive.''] = Inr ''Positive'' \<and>
   normalize_sentiment [''sentiment'' \<mapsto> PStr ''Positive''] = Inr ''Positive'' \<and>
   normalize_sentiment Map.empty = Inr ''Unknown''"
proof (intro conjI impI)
  assume present: "fb ''sentiment'' = Some (PStr s)"
  from rstrip_decomp[of s "CHR ''.''"]
  obtain n where "s = rstrip ''.'' s @ replicate n CHR ''.''" ..
  moreover have "rstrip ''.'' s = [] \<or> last (rstrip ''.'' s) \<noteq> CHR ''.''"
    using rstrip_last[of "''.''" s] by simp
  moreover have "normalize_sentiment fb = Inr (rstrip ''.'' s)"
    using present by (rule normalize_sentiment_str)
  ultimately show "\<exists>r n. normalize_sentiment fb = Inr r \<and> s = r @ replicate n CHR ''.'' \<and>
      (r = [] \<or> last r \<noteq> CHR ''.'')"
    by (intro exI[of _ "rstrip ''.'' s"] exI[of _ n] conjI)
next
  assume "fb ''sentiment'' = None"
  then show "normalize_sentiment fb = Inr ''Unknown''"
    by (rule normalize_sentiment_absent)
next
  show "normalize_sentiment [''sentiment'' \<mapsto> PStr ''Positive.''] = Inr ''Positive''"
    by (simp add: normalize_eval rstrip_def)
next
  show "normalize_sentiment [''sentiment'' \<mapsto> PStr ''Positive''] = Inr ''Positive''"
    by (simp add: normalize_eval rstrip_def)
next
  show "normalize_sentiment Map.empty = Inr ''Unknown''"
    by (simp add: normalize_eval rstrip_def)
qed

theorem normalize_sentiment_strips_trailing_dots_witness:
  "[''rating'' \<mapsto> PInt 4, ''sentiment'' \<mapsto> PStr ''Neutral...''] ''sentiment'' = Some (PStr ''Neutral...'') \<and>
   (\<exists>n. normalize_sentiment [''rating'' \<mapsto> PInt 4, ''sentiment'' \<mapsto> PStr ''Neutral...''] = Inr ''Neutral'' \<and>
        ''Neutral...'' = ''Neutral'' @ replicate n CHR ''.'') \<and>
   [''rating'' \<mapsto> PInt 4] ''sentiment'' = None \<and>
   normalize_sentiment [''rating'' \<mapsto> PInt 4] = Inr ''Unknown''"
proof -
  let ?fb = "[''rating'' \<mapsto> PInt 4, ''sentiment'' \<mapsto> PStr ''Neutral...'']"
  have p: "?fb ''sentiment'' = Some (PStr ''Neutral...'')"
    by simp
  have a: "[''rating'' \<mapsto> PInt 4] ''sentiment'' = None"
    by simp
  have "\<exists>r n. normalize_sentiment ?fb = Inr r \<and> ''Neutral...'' = r @ replicate n CHR ''.'' \<and>
      (r = [] \<or> last r \<noteq> CHR ''.'')"
    using normalize_sentiment_strips_trailing_dots[of ?fb "''Neutral...''", THEN conjunct1] p
    by (rule mp)
  then obtain r n where r: "normalize_sentiment ?fb = Inr r"
    and n: "''Neutral...'' = r @ replicate n CHR ''.''"
    by (elim exE conjE)
  have "normalize_sentiment ?fb = Inr ''Neutral''"
    by (simp add: normalize_eval rstrip_def)
  with r have "r = ''Neutral''"
    by simp
  with r n have c: "\<exists>n. normalize_sentiment ?fb = Inr ''Neutral'' \<and>
        ''Neutral...'' = ''Neutral'' @ replicate n CHR ''.''"
    by (intro exI[of _ n]) simp
  have u: "normalize_sentiment [''rating'' \<mapsto> PInt 4] = Inr ''Unknown''"
    using normalize_sentiment_strips_trailing_dots[of "[''rating'' \<mapsto> PInt 4]" "[]",
        THEN conjunct2, THEN conjunct1] a
    by (rule mp)
  show ?thesis
    using p c a u by (intro conjI)
qed

text \<open>
  C5. Normalisation is idempotent: for every string \<open>s\<close>, a record whose sentiment is
  \<open>s\<close> normalises to some \<open>r\<close>, and a record whose sentiment is that \<open>r\<close> normalises to
  \<open>r\<close> again.
\<close>

theorem normalize_sentiment_idempotent:
  "\<exists>r. normalize_sentiment (fb(''sentiment'' \<mapsto> PStr s)) = Inr r \<and>
       normalize_sentiment (fb'(''sentiment'' \<mapsto> PStr r)) = Inr r"
proof (intro exI[of _ "rstrip ''.'' s"] conjI)
  show "normalize_sentiment (fb(''sentiment'' \<mapsto> PStr s)) = Inr (rstrip ''.'' s)"
    by (rule normalize_sentiment_str) simp
  have "normalize_sentiment (fb'(''sentiment'' \<mapsto> PStr (rstrip ''.'' s))) =
      Inr (rstrip ''.'' (rstrip ''.'' s))"
    by (rule normalize_sentiment_str) simp
  then show "normalize_sentiment (fb'(''sentiment'' \<mapsto> PStr (rstrip ''.'' s))) =
      Inr (rstrip ''.'' s)"
    by (simp only: rstrip_idem)
qed

section \<open>The feedback filter\<close>

lemma is_text_cases:
  assumes "is_text (fb k)"
  obtains "fb k = None" | s where "fb k = Some (PStr s)"
  using assms by (auto simp: is_text_def split: option.splits pyval.splits)

lemma field_text_get:
  assumes "is_text (fb k)"
  shows "\<exists>t. field_text fb k = Some t \<and> val_lower lower (dict_get fb k (PStr [])) = Inr (lower t)"
  using assms by (rule is_text_cases) (simp_all add: field_text_def val_lower_def dict_get_def)

lemma normalize_sentiment_text:
  assumes "is_text (fb ''sentiment'')"
  shows "\<exists>s. normalize_sentiment fb = Inr s"
  using assms by (rule is_text_cases) (simp_all add: normalize_eval)

lemma wf_record_rating:
  assumes "wf_record fb"
  obtains n where "fb ''rating'' = Some (PInt n)"
  using assms by (auto simp: wf_record_def rating_of_def split: option.splits pyval.splits)

lemma keeps_wf:
  assumes "wf_record fb"
  shows "keeps lower fb rf sf q = Inr (spec_keeps lower fb (set rf) (set sf) q)"
proof -
  from assms obtain n where n: "fb ''rating'' = Some (PInt n)"
    by (rule wf_record_rating)
  from assms have tx: "is_text (fb ''sentiment'')" "is_text (fb ''review'')"
    "is_text (fb ''ai_summary'')"
    by (simp_all add: wf_record_def)
  from normalize_sentiment_text[of fb, OF tx(1)]
  obtain s where s: "normalize_sentiment fb = Inr s" ..
  from field_text_get[of fb "''review''" lower, OF tx(2)]
  obtain rv where rv: "field_text fb ''review'' = Some rv \<and>
      val_lower lower (dict_get fb ''review'' (PStr [])) = Inr (lower rv)" ..
  from field_text_get[of fb "''ai_summary''" lower, OF tx(3)]
  obtain sm where sm: "field_text fb ''ai_summary'' = Some sm \<and>
      val_lower lower (dict_get fb ''ai_summary'' (PStr [])) = Inr (lower sm)" ..
  have r: "rating_of fb = Some n"
    using n by (simp add: rating_of_def)
  have m: "in_int_list (PInt n) rf \<longleftrightarrow> n \<in> set rf"
    by (auto simp: in_int_list_def list_ex_iff)
  show ?thesis
    by (simp add: keeps_def dict_item_def n s rv sm r m spec_keeps_def ci_substring_code)
qed

lemma filter_feedbacks_wf:
  assumes "\<forall>fb\<in>set fbs. wf_record fb"
  shows "filter_feedbacks lower fbs rf sf q = Inr (filter (\<lambda>fb. spec_keeps lower fb (set rf) (set sf) q) fbs)"
  using assms by (induction fbs) (simp_all add: keeps_wf)

lemma filter_feedbacks_subseq:
  "filter_feedbacks lower fbs rf sf q = Inr ys \<Longrightarrow> subseq ys fbs"
proof (induction fbs arbitrary: ys)
  case Nil
  then show ?case by simp
next
  case (Cons fb fbs)
  then show ?case by (auto split: sum.splits if_splits)
qed

lemmas keeps_eval = keeps_def dict_item_def in_int_list_def normalize_eval rstrip_def
  val_lower_def ascii_lower_eval

lemmas spec_eval = spec_keeps_def rating_of_def field_text_def ci_substring_code
  normalize_eval rstrip_def ascii_lower_eval

lemmas wf_eval = wf_record_def rating_of_def is_text_def

text \<open>
  C2, as stated, fails: a record without a \<open>rating\<close> field makes \<open>filter_feedbacks\<close>
  raise \<^verbatim>\<open>KeyError\<close>, whatever the filters are. A record whose \<open>sentiment\<close> is
  \<^verbatim>\<open>null\<close> makes \<open>normalize_sentiment\<close> raise \<^verbatim>\<open>AttributeError\<close>.
\<close>

theorem filter_feedbacks_missing_rating_raises:
  "filter_feedbacks ascii_lower
     [[''sentiment'' \<mapsto> PStr ''Positive'', ''review'' \<mapsto> PStr ''great app'']]
     [1, 2, 3, 4, 5] [''Positive'', ''Neutral'', ''Negative'', ''Unknown''] [] =
   Inl (KeyError ''rating'') \<and>
   normalize_sentiment [''rating'' \<mapsto> PInt 5, ''sentiment'' \<mapsto> PNone] =
   Inl (AttributeError ''rstrip'')"
  by (simp add: keeps_def dict_item_def normalize_eval)

text \<open>
  C2, amended. \<open>normalize_sentiment\<close> returns on every record whose \<open>sentiment\<close> is
  absent or a string, and \<open>filter_feedbacks\<close> returns on every list of records that
  carry an integer \<open>rating\<close> and whose \<open>sentiment\<close>, \<open>review\<close> and \<open>ai_summary\<close> are
  absent or strings, whatever the case mapping is. A record that has only a rating is
  kept under the defaults: sentiment \<open>Unknown\<close>, empty review and summary; the last
  part needs of the case mapping only that it keeps the empty string empty and no other,
  as \<^verbatim>\<open>str.lower\<close> does.
\<close>

theorem normalize_and_filter_total_on_model_records:
  "(is_text (fb ''sentiment'') \<longrightarrow> (\<exists>s. normalize_sentiment fb = Inr s)) \<and>
   ((\<forall>fb\<in>set fbs. wf_record fb) \<longrightarrow> (\<exists>ys. filter_feedbacks lower fbs rf sf q = Inr ys)) \<and>
   (lower [] = [] \<and> (\<forall>s. lower s = [] \<longrightarrow> s = []) \<longrightarrow>
      keeps lower [''rating'' \<mapsto> PInt n] rf sf q =
        Inr (n \<in> set rf \<and> ''Unknown'' \<in> set sf \<and> q = []))"
proof (intro conjI impI)
  assume "is_text (fb ''sentiment'')"
  then show "\<exists>s. normalize_sentiment fb = Inr s"
    by (rule normalize_sentiment_text)
next
  assume "\<forall>fb\<in>set fbs. wf_record fb"
  then have "filter_feedbacks lower fbs rf sf q =
      Inr (filter (\<lambda>fb. spec_keeps lower fb (set rf) (set sf) q) fbs)"
    by (rule filter_feedbacks_wf)
  then show "\<exists>ys. filter_feedbacks lower fbs rf sf q = Inr ys" ..
next
  assume "lower [] = [] \<and> (\<forall>s. lower s = [] \<longrightarrow> s = [])"
  then have e: "lower [] = []" and "str_contains [] (lower q) \<longleftrightarrow> q = []"
    by auto
  then show "keeps lower [''rating'' \<mapsto> PInt n] rf sf q =
      Inr (n \<in> set rf \<and> ''Unknown'' \<in> set sf \<and> q = [])"
    by (simp add: keeps_def dict_item_def in_int_list_def list_ex_iff normalize_eval rstrip_def
        val_lower_def)
qed

theorem normalize_and_filter_total_on_model_records_witness:
  "is_text ([''rating'' \<mapsto> PInt 3] ''sentiment'') \<and>
   normalize_sentiment [''rating'' \<mapsto> PInt 3] = Inr ''Unknown'' \<and>
   wf_record [''rating'' \<mapsto> PInt 3] \<and>
   wf_record [''rating'' \<mapsto> PInt 1, ''sentiment'' \<mapsto> PStr ''Negative.''] \<and>
   filter_feedbacks ascii_lower
     [[''rating'' \<mapsto> PInt 3], [''rating'' \<mapsto> PInt 1, ''sentiment'' \<mapsto> PStr ''Negative.'']]
     [1, 3] [''Unknown''] [] = Inr [[''rating'' \<mapsto> PInt 3]] \<and>
   ascii_lower [] = [] \<and>
   keeps ascii_lower [''rating'' \<mapsto> PInt 3] [1, 3] [''Unknown''] ''slow'' = Inr False"
proof -
  let ?a = "[''rating'' \<mapsto> PInt 3] :: feedback"
  let ?b = "[''rating'' \<mapsto> PInt 1, ''sentiment'' \<mapsto> PStr ''Negative.''] :: feedback"
  have t: "is_text (?a ''sentiment'')"
    by (simp add: is_text_def)
  have wa: "wf_record ?a" and wb: "wf_record ?b"
    by (simp_all add: wf_eval)
  then have wf: "\<forall>fb\<in>set [?a, ?b]. wf_record fb"
    by simp
  note inst = normalize_and_filter_total_on_model_records[where fb = ?a and fbs = "[?a, ?b]"
      and lower = ascii_lower and rf = "[1, 3]" and sf = "[''Unknown'']" and q = "[]" and n = 3]
  from inst t have "\<exists>s. normalize_sentiment ?a = Inr s"
    by (elim conjE) (rule mp)
  then have n: "normalize_sentiment ?a = Inr ''Unknown''"
    by (simp add: normalize_eval rstrip_def)
  from inst wf have "\<exists>ys. filter_feedbacks ascii_lower [?a, ?b] [1, 3] [''Unknown''] [] = Inr ys"
    by (elim conjE) (rule mp)
  then have f: "filter_feedbacks ascii_lower [?a, ?b] [1, 3] [''Unknown''] [] = Inr [?a]"
    by (simp add: keeps_eval)
  have e: "ascii_lower [] = []"
    by (simp add: ascii_lower_def)
  have m: "ascii_lower [] = [] \<and> (\<forall>s. ascii_lower s = [] \<longrightarrow> s = [])"
    by (simp add: ascii_lower_def)
  note defaults = normalize_and_filter_total_on_model_records[where lower = ascii_lower
      and rf = "[1, 3]" and sf = "[''Unknown'']" and q = "''slow''" and n = 3,
      THEN conjunct2, THEN conjunct2]
  from defaults m have "keeps ascii_lower ?a [1, 3] [''Unknown''] ''slow'' =
      Inr (3 \<in> set [1, 3 :: int] \<and> ''Unknown'' \<in> set [''Unknown''] \<and> ''slow'' = [])"
    by (rule mp)
  then have k: "keeps ascii_lower ?a [1, 3] [''Unknown''] ''slow'' = Inr False"
    by simp
  show ?thesis
    using t n wa wb f e k by (intro conjI)
qed

text \<open>
  C3. On records of the data model, \<open>filter_feedbacks\<close> returns exactly the records
  that satisfy the three conditions of the specification, each as often and in the order
  in which it occurs in the input: the rating is in the rating filter, the normalised
  sentiment is in the sentiment filter, and the query is empty or is, ignoring case, a
  substring of the review or of the summary, an absent text being the empty string.
  Ignoring case means comparing after \<^verbatim>\<open>str.lower\<close>; the statement holds for every
  case mapping, so for that of Python whatever the texts contain.
\<close>

theorem filter_feedbacks_keeps_iff_spec:
  assumes "\<forall>fb\<in>set fbs. wf_record fb"
  shows "filter_feedbacks lower fbs rf sf q =
    Inr (filter (\<lambda>fb. spec_keeps lower fb (set rf) (set sf) q) fbs)"
  using assms by (induction fbs) (simp_all add: keeps_wf)

theorem filter_feedbacks_keeps_iff_spec_witness:
  "wf_record [''rating'' \<mapsto> PInt 5, ''sentiment'' \<mapsto> PStr ''Positive'', ''review'' \<mapsto> PStr ''great app''] \<and>
   wf_record [''rating'' \<mapsto> PInt 1, ''sentiment'' \<mapsto> PStr ''Negative.'', ''review'' \<mapsto> PStr ''Bad BUG''] \<and>
   wf_record [''rating'' \<mapsto> PInt 5, ''ai_summary'' \<mapsto> PStr ''a bug report''] \<and>
   filter_feedbacks ascii_lower
     [[''rating'' \<mapsto> PInt 5, ''sentiment'' \<mapsto> PStr ''Positive'', ''review'' \<mapsto> PStr ''great app''],
      [''rating'' \<mapsto> PInt 1, ''sentiment'' \<mapsto> PStr ''Negative.'', ''review'' \<mapsto> PStr ''Bad BUG''],
      [''rating'' \<mapsto> PInt 5, ''ai_summary'' \<mapsto> PStr ''a bug report'']]
     [1, 5] [''Positive'', ''Negative'', ''Unknown''] ''bUg'' =
   Inr [[''rating'' \<mapsto> PInt 1, ''sentiment'' \<mapsto> PStr ''Negative.'', ''review'' \<mapsto> PStr ''Bad BUG''],
        [''rating'' \<mapsto> PInt 5, ''ai_summary'' \<mapsto> PStr ''a bug report'']]"
proof -
  let ?r0 = "[''rating'' \<mapsto> PInt 5, ''sentiment'' \<mapsto> PStr ''Positive'',
              ''review'' \<mapsto> PStr ''great app''] :: feedback"
  let ?r1 = "[''rating'' \<mapsto> PInt 1, ''sentiment'' \<mapsto> PStr ''Negative.'',
              ''review'' \<mapsto> PStr ''Bad BUG''] :: feedback"
  let ?r2 = "[''rating'' \<mapsto> PInt 5, ''ai_summary'' \<mapsto> PStr ''a bug report''] :: feedback"
  have w: "wf_record ?r0" "wf_record ?r1" "wf_record ?r2"
    by (simp_all add: wf_eval)
  then have wf: "\<forall>fb\<in>set [?r0, ?r1, ?r2]. wf_record fb"
    by simp
  have k0: "\<not> spec_keeps ascii_lower ?r0 (set [1, 5]) (set [''Positive'', ''Negative'', ''Unknown'']) ''bUg''"
    by (simp add: spec_eval)
  have k1: "spec_keeps ascii_lower ?r1 (set [1, 5]) (set [''Positive'', ''Negative'', ''Unknown'']) ''bUg''"
    by (simp add: spec_eval)
  have k2: "spec_keeps ascii_lower ?r2 (set [1, 5]) (set [''Positive'', ''Negative'', ''Unknown'']) ''bUg''"
    by (simp add: spec_eval)
  have "filter_feedbacks ascii_lower [?r0, ?r1, ?r2] [1, 5] [''Positive'', ''Negative'', ''Unknown''] ''bUg'' =
      Inr [?r1, ?r2]"
    using filter_feedbacks_keeps_iff_spec[OF wf, where lower = ascii_lower and rf = "[1, 5]"
        and sf = "[''Positive'', ''Negative'', ''Unknown'']" and q = "''bUg''"] k0 k1 k2
    by (simp only: filter.simps if_True if_False)
  with w show ?thesis
    by (intro conjI)
qed

text \<open>
  C6. On records of the data model, an empty rating filter or an empty sentiment filter
  makes \<open>filter_feedbacks\<close> return the empty list, whatever the query is.
\<close>

theorem filter_feedbacks_empty_filter:
  assumes "\<forall>fb\<in>set fbs. wf_record fb" and "rf = [] \<or> sf = []"
  shows "filter_feedbacks lower fbs rf sf q = Inr []"
proof -
  have "\<not> spec_keeps lower fb (set rf) (set sf) q" for fb
    using assms(2) by (auto simp: spec_keeps_def)
  then have "filter (\<lambda>fb. spec_keeps lower fb (set rf) (set sf) q) fbs = []"
    by simp
  with filter_feedbacks_wf[OF assms(1), of lower rf sf q] show ?thesis
    by simp
qed

theorem filter_feedbacks_empty_filter_witness:
  "wf_record [''rating'' \<mapsto> PInt 2, ''review'' \<mapsto> PStr ''slow''] \<and>
   filter_feedbacks ascii_lower [[''rating'' \<mapsto> PInt 2, ''review'' \<mapsto> PStr ''slow'']]
     [] [''Positive'', ''Neutral'', ''Negative'', ''Unknown''] [] = Inr [] \<and>
   filter_feedbacks ascii_lower [[''rating'' \<mapsto> PInt 2, ''review'' \<mapsto> PStr ''slow'']]
     [1, 2, 3, 4, 5] [] ''slow'' = Inr []"
proof -
  let ?r = "[''rating'' \<mapsto> PInt 2, ''review'' \<mapsto> PStr ''slow''] :: feedback"
  have w: "wf_record ?r"
    by (simp add: wf_eval)
  then have wf: "\<forall>fb\<in>set [?r]. wf_record fb"
    by simp
  have a: "filter_feedbacks ascii_lower [?r] [] [''Positive'', ''Neutral'', ''Negative'', ''Unknown''] [] = Inr []"
    using wf by (rule filter_feedbacks_empty_filter) simp
  have b: "filter_feedbacks ascii_lower [?r] [1, 2, 3, 4, 5] [] ''slow'' = Inr []"
    using wf by (rule filter_feedbacks_empty_filter) simp
  show ?thesis
    using w a b by (intro conjI)
qed

text \<open>
  C7. Whenever \<open>filter_feedbacks\<close> returns, its result is a subsequence of its input:
  the records kept stand in the order of the input. On records of the data model it
  does return.
\<close>

theorem filter_feedbacks_order_preserving:
  "(\<forall>ys. filter_feedbacks lower fbs rf sf q = Inr ys \<longrightarrow> subseq ys fbs) \<and>
   ((\<forall>fb\<in>set fbs. wf_record fb) \<longrightarrow>
      (\<exists>ys. filter_feedbacks lower fbs rf sf q = Inr ys \<and> subseq ys fbs))"
proof (intro conjI allI impI)
  fix ys
  assume "filter_feedbacks lower fbs rf sf q = Inr ys"
  then show "subseq ys fbs"
    by (rule filter_feedbacks_subseq)
next
  assume "\<forall>fb\<in>set fbs. wf_record fb"
  then have r: "filter_feedbacks lower fbs rf sf q =
      Inr (filter (\<lambda>fb. spec_keeps lower fb (set rf) (set sf) q) fbs)"
    by (rule filter_feedbacks_wf)
  then have "subseq (filter (\<lambda>fb. spec_keeps lower fb (set rf) (set sf) q) fbs) fbs"
    by (rule filter_feedbacks_subseq)
  with r show "\<exists>ys. filter_feedbacks lower fbs rf sf q = Inr ys \<and> subseq ys fbs"
    by (intro exI conjI)
qed

theorem filter_feedbacks_order_preserving_witness:
  "wf_record [''rating'' \<mapsto> PInt 4, ''created_at'' \<mapsto> PStr ''2024-03-01''] \<and>
   wf_record [''rating'' \<mapsto> PInt 2, ''created_at'' \<mapsto> PStr ''2024-02-01''] \<and>
   wf_record [''rating'' \<mapsto> PInt 4, ''created_at'' \<mapsto> PStr ''2024-01-01''] \<and>
   filter_feedbacks ascii_lower
     [[''rating'' \<mapsto> PInt 4, ''created_at'' \<mapsto> PStr ''2024-03-01''],
      [''rating'' \<mapsto> PInt 2, ''created_at'' \<mapsto> PStr ''2024-02-01''],
      [''rating'' \<mapsto> PInt 4, ''created_at'' \<mapsto> PStr ''2024-01-01'']]
     [4] [''Unknown''] [] =
   Inr [[''rating'' \<mapsto> PInt 4, ''created_at'' \<mapsto> PStr ''2024-03-01''],
        [''rating'' \<mapsto> PInt 4, ''created_at'' \<mapsto> PStr ''2024-01-01'']] \<and>
   subseq
     [[''rating'' \<mapsto> PInt 4, ''created_at'' \<mapsto> PStr ''2024-03-01''],
      [''rating'' \<mapsto> PInt 4, ''created_at'' \<mapsto> PStr ''2024-01-01'']]
     [[''rating'' \<mapsto> PInt 4, ''created_at'' \<mapsto> PStr ''2024-03-01''],
      [''rating'' \<mapsto> PInt 2, ''created_at'' \<mapsto> PStr ''2024-02-01''],
      [''rating'' \<mapsto> PInt 4, ''created_at'' \<mapsto> PStr ''2024-01-01'']]"
proof -
  let ?a = "[''rating'' \<mapsto> PInt 4, ''created_at'' \<mapsto> PStr ''2024-03-01''] :: feedback"
  let ?b = "[''rating'' \<mapsto> PInt 2, ''created_at'' \<mapsto> PStr ''2024-02-01''] :: feedback"
  let ?c = "[''rating'' \<mapsto> PInt 4, ''created_at'' \<mapsto> PStr ''2024-01-01''] :: feedback"
  have w: "wf_record ?a" "wf_record ?b" "wf_record ?c"
    by (simp_all add: wf_eval)
  have f: "filter_feedbacks ascii_lower [?a, ?b, ?c] [4] [''Unknown''] [] = Inr [?a, ?c]"
    by (simp add: keeps_eval)
  have "\<forall>ys. filter_feedbacks ascii_lower [?a, ?b, ?c] [4] [''Unknown''] [] = Inr ys \<longrightarrow>
      subseq ys [?a, ?b, ?c]"
    using filter_feedbacks_order_preserving[where lower = ascii_lower and fbs = "[?a, ?b, ?c]"
        and rf = "[4]" and sf = "[''Unknown'']" and q = "[]"]
    by (rule conjunct1)
  with f have "subseq [?a, ?c] [?a, ?b, ?c]"
    by (elim allE) (rule mp)
  with w f show ?thesis
    by (intro conjI)
qed

section \<open>The API client\<close>

lemmas fetch_eval = fetch_feedbacks_def fetch_analytics_def answering_def failed_def

text \<open>
  C1, as stated, fails: a response with status 503 makes \<open>fetch_feedbacks\<close> return the
  empty list and show no banner, which is what it returns for a 200 response whose body
  is the empty array.
\<close>

theorem fetch_feedbacks_bad_status_returns_empty_list:
  "fetch_feedbacks (answering (Inr (Response 503 (Inr []))))
     ''http://localhost:8000'' (Some ''secret'') 100 = ([], []) \<and>
   fetch_feedbacks (answering (Inr (Response 200 (Inr []))))
     ''http://localhost:8000'' (Some ''secret'') 100 = ([], [])"
  by (simp add: fetch_eval)

text \<open>
  C1, amended. No failure leaves the client as an exception: whatever the request
  brings back, both functions return a value. On a 200 response with a parsable body
  that value is the body. On a failure (an exception of \<^verbatim>\<open>requests.get\<close>, a status
  other than 200, a body that does not parse) \<open>fetch_analytics\<close> returns \<^verbatim>\<open>None\<close> and
  \<open>fetch_feedbacks\<close> returns the empty list; a banner with the message of the exception
  is shown when one was caught, and none on a status other than 200.
\<close>

theorem fetch_returns_default_on_failure:
  "(failed (net (feedbacks_request API_URL API_KEY limit)) \<longrightarrow>
      fst (fetch_feedbacks net API_URL API_KEY limit) = []) \<and>
   (net (feedbacks_request API_URL API_KEY limit) = Inr (Response 200 (Inr body)) \<longrightarrow>
      fetch_feedbacks net API_URL API_KEY limit = (body, [])) \<and>
   (net (feedbacks_request API_URL API_KEY limit) = Inr (Response code parsed) \<and> code \<noteq> 200 \<longrightarrow>
      fetch_feedbacks net API_URL API_KEY limit = ([], [])) \<and>
   (net (feedbacks_request API_URL API_KEY limit) = Inl e \<longrightarrow>
      fetch_feedbacks net API_URL API_KEY limit = ([], [''Feedback fetch error: '' @ message e])) \<and>
   (net (feedbacks_request API_URL API_KEY limit) = Inr (Response 200 (Inl e)) \<longrightarrow>
      fetch_feedbacks net API_URL API_KEY limit = ([], [''Feedback fetch error: '' @ message e])) \<and>
   (failed (anet (analytics_request API_URL API_KEY)) \<longrightarrow>
      fst (fetch_analytics anet API_URL API_KEY) = None) \<and>
   (anet (analytics_request API_URL API_KEY) = Inr (Response 200 (Inr abody)) \<longrightarrow>
      fetch_analytics anet API_URL API_KEY = (Some abody, [])) \<and>
   (anet (analytics_request API_URL API_KEY) = Inr (Response code aparsed) \<and> code \<noteq> 200 \<longrightarrow>
      fetch_analytics anet API_URL API_KEY = (None, [])) \<and>
   (anet (analytics_request API_URL API_KEY) = Inl e \<longrightarrow>
      fetch_analytics anet API_URL API_KEY = (None, [''Analytics fetch error: '' @ message e])) \<and>
   (anet (analytics_request API_URL API_KEY) = Inr (Response 200 (Inl e)) \<longrightarrow>
      fetch_analytics anet API_URL API_KEY = (None, [''Analytics fetch error: '' @ message e]))"
proof (intro conjI impI)
  assume "failed (net (feedbacks_request API_URL API_KEY limit))"
  then show "fst (fetch_feedbacks net API_URL API_KEY limit) = []"
    by (auto simp: failed_def fetch_feedbacks_def isl_def split: sum.splits)
next
  assume "failed (anet (analytics_request API_URL API_KEY))"
  then show "fst (fetch_analytics anet API_URL API_KEY) = None"
    by (auto simp: failed_def fetch_analytics_def isl_def split: sum.splits)
qed (simp_all add: fetch_feedbacks_def fetch_analytics_def)

theorem fetch_returns_default_on_failure_witness:
  "failed (answering (Inl (Exn Timeout ''Read timed out.'')) (feedbacks_request ''http://api'' None 100)
           :: exn + feedback list response) \<and>
   fetch_feedbacks (answering (Inl (Exn Timeout ''Read timed out.''))) ''http://api'' None 100 =
     ([], [''Feedback fetch error: Read timed out.'']) \<and>
   fetch_feedbacks (answering (Inr (Response 200 (Inr [[''rating'' \<mapsto> PInt 5]])))) ''http://api'' None 100 =
     ([[''rating'' \<mapsto> PInt 5]], [])"
proof -
  let ?down = "answering (Inl (Exn Timeout ''Read timed out.'')) :: feedback list network"
  let ?up = "answering (Inr (Response 200 (Inr [[''rating'' \<mapsto> PInt 5]]))) :: feedback list network"
  have f: "failed (?down (feedbacks_request ''http://api'' None 100))"
    by (simp add: answering_def failed_def)
  have d: "?down (feedbacks_request ''http://api'' None 100) = Inl (Exn Timeout ''Read timed out.'')"
    by (simp add: answering_def)
  have u: "?up (feedbacks_request ''http://api'' None 100) =
      Inr (Response 200 (Inr [[''rating'' \<mapsto> PInt 5]]))"
    by (simp add: answering_def)
  have "fetch_feedbacks ?down ''http://api'' None 100 =
      ([], [''Feedback fetch error: '' @ message (Exn Timeout ''Read timed out.'')])"
    using fetch_returns_default_on_failure[of ?down "''http://api''" None 100 _ _ _
        "Exn Timeout ''Read timed out.''", THEN conjunct2, THEN conjunct2, THEN conjunct2,
        THEN conjunct1] d
    by (rule mp)
  then have a: "fetch_feedbacks ?down ''http://api'' None 100 =
      ([], [''Feedback fetch error: Read timed out.''])"
    by simp
  have b: "fetch_feedbacks ?up ''http://api'' None 100 = ([[''rating'' \<mapsto> PInt 5]], [])"
    using fetch_returns_default_on_failure[of ?up "''http://api''" None 100
        "[[''rating'' \<mapsto> PInt 5]]", THEN conjunct2, THEN conjunct1] u
    by (rule mp)
  show ?thesis
    using f a b by (intro conjI)
qed

section \<open>The authentication gate\<close>

text \<open>
  C10. On the authentication screen (the session is not authenticated), access is
  granted exactly when the button is pressed while the entered string equals the
  configured key; when the key is not configured, no entered string is accepted.
\<close>

theorem auth_gate_grants_iff_key_matches:
  assumes "\<not> authenticated st"
  shows "(authenticated (fst (render_auth_screen st api_key_input True API_KEY)) \<longleftrightarrow>
           API_KEY = Some api_key_input) \<and>
         \<not> authenticated (fst (render_auth_screen st api_key_input True None)) \<and>
         fst (render_auth_screen st api_key_input False API_KEY) = st"
  using assms by (auto simp: render_auth_screen_def)

theorem auth_gate_grants_iff_key_matches_witness:
  "\<not> authenticated \<lparr>authenticated = False\<rparr> \<and>
   authenticated (fst (render_auth_screen \<lparr>authenticated = False\<rparr> ''s3cret'' True (Some ''s3cret''))) \<and>
   \<not> authenticated (fst (render_auth_screen \<lparr>authenticated = False\<rparr> ''S3cret'' True (Some ''s3cret''))) \<and>
   \<not> authenticated (fst (render_auth_screen \<lparr>authenticated = False\<rparr> [] True None))"
proof -
  let ?st = "\<lparr>authenticated = False\<rparr>"
  have n: "\<not> authenticated ?st"
    by simp
  have a: "authenticated (fst (render_auth_screen ?st ''s3cret'' True (Some ''s3cret'')))"
    using auth_gate_grants_iff_key_matches[OF n, of "''s3cret''" "Some ''s3cret''"] by simp
  have b: "\<not> authenticated (fst (render_auth_screen ?st ''S3cret'' True (Some ''s3cret'')))"
    using auth_gate_grants_iff_key_matches[OF n, of "''S3cret''" "Some ''s3cret''"] by simp
  have c: "\<not> authenticated (fst (render_auth_screen ?st [] True None))"
    using auth_gate_grants_iff_key_matches[OF n, of "[]" None] by simp
  show ?thesis
    using n a b c by (intro conjI)
qed

section \<open>Sorting by recency and the display cap\<close>

lemma insort_key_agree:
  assumes "f x = g x" and "\<forall>y\<in>set ys. f y = g y"
  shows "insort_key f x ys = insort_key g x ys"
  using assms by (induction ys) simp_all

lemma sort_key_agree:
  assumes "\<forall>x\<in>set xs. f x = g x"
  shows "sort_key f xs = sort_key g xs"
  using assms
proof (induction xs)
  case Nil
  show ?case by simp
next
  case (Cons x xs)
  then have ih: "sort_key f xs = sort_key g xs" and x: "f x = g x"
    and rest: "\<forall>y\<in>set (sort_key g xs). f y = g y"
    by simp_all
  have "sort_key f (x # xs) = insort_key f x (sort_key g xs)"
    by (simp add: ih)
  also have "\<dots> = insort_key g x (sort_key g xs)"
    using x rest by (rule insort_key_agree)
  finally show ?case
    by simp
qed

lemma sorted_reverse_strings:
  assumes "\<forall>x\<in>set xs. str_key (key x) = Some (f x)"
  shows "sorted_reverse key xs = Inr (rev (sort_key f (rev xs)))"
proof (cases "length xs \<le> 1")
  case True
  then have "xs = [] \<or> (\<exists>x. xs = [x])"
    by (cases xs) auto
  then have "rev (sort_key f (rev xs)) = xs"
    by auto
  with True show ?thesis
    by (simp add: sorted_reverse_def)
next
  case False
  have all: "list_all (\<lambda>x. str_key (key x) \<noteq> None) xs"
    using assms by (simp add: list_all_iff)
  have "sort_key (\<lambda>x. case str_key (key x) of Some s \<Rightarrow> s | None \<Rightarrow> []) (rev xs) =
      sort_key f (rev xs)"
    by (rule sort_key_agree) (simp add: assms)
  with False all show ?thesis
    by (simp add: sorted_reverse_def)
qed

lemma created_at_key_text:
  assumes "is_text (fb ''created_at'')"
  shows "str_key (created_at_key fb) = Some (created_text fb)"
  using assms
  by (rule is_text_cases)
    (simp_all add: created_at_key_def created_text_def field_text_def dict_get_def str_key_def)

lemma rev_sort_rev_descending:
  "sorted_wrt (\<lambda>a b. f b \<le> f a) (rev (sort_key f (rev xs)))"
proof -
  have "sorted (map f (sort_key f (rev xs)))"
    by (rule sorted_sort_key)
  then have "sorted_wrt (\<lambda>a b. f a \<le> f b) (sort_key f (rev xs))"
    by (simp only: sorted_map)
  then show ?thesis
    by (simp only: sorted_wrt_rev)
qed

lemma rev_sort_rev_stable:
  "filter (\<lambda>y. f y = k) (rev (sort_key f (rev xs))) = filter (\<lambda>y. f y = k) xs"
proof -
  have "filter (\<lambda>y. f y = k) (rev (sort_key f (rev xs))) =
      rev (filter (\<lambda>y. f y = k) (sort_key f (rev xs)))"
    by (simp only: rev_filter)
  also have "\<dots> = rev (filter (\<lambda>y. f y = k) (rev xs))"
    by (simp only: sort_key_stable)
  also have "\<dots> = filter (\<lambda>y. f y = k) xs"
    by (simp only: rev_filter rev_rev_ident)
  finally show ?thesis .
qed

lemma sorted_reverse_created_at:
  assumes "\<forall>fb\<in>set fbs. is_text (fb ''created_at'')"
  shows "sorted_reverse created_at_key fbs = Inr (rev (sort_key created_text (rev fbs)))"
  by (rule sorted_reverse_strings) (simp add: assms created_at_key_text)

lemma feedback_section_sorted:
  assumes "fetched \<noteq> []" and "sorted_reverse created_at_key fetched = Inr srt"
  shows "feedback_section lim lower fetched rf sf q =
    (case filter_feedbacks lower srt rf sf q of
       Inl e \<Rightarrow> Inl e
     | Inr flt \<Rightarrow>
         Inr (FeedbackStream (length flt) (length srt)
                (fst (render_items lim (enumerate 0 (take 20 flt))))
                (snd (render_items lim (enumerate 0 (take 20 flt))))))"
  using assms by (simp add: feedback_section_def)

lemma render_feedback_item_Inr:
  assumes "render_feedback_item lim fb idx = Inr item"
  shows "item = (idx, fb)"
  using assms by (auto simp: render_feedback_item_def split: sum.splits option.splits)

lemma render_items_prefix: "prefix (fst (render_items lim xs)) xs"
proof (induction lim xs rule: render_items.induct)
  case (1 lim)
  show ?case by simp
next
  case (2 lim idx feedback rest)
  show ?case
  proof (cases "render_feedback_item lim feedback idx")
    case (Inl e)
    then show ?thesis by simp
  next
    case (Inr item)
    then have "item = (idx, feedback)"
      by (rule render_feedback_item_Inr)
    with Inr 2 show ?thesis by simp
  qed
qed

lemma star_display_five:
  assumes "5 \<le> alloc_max lim" and "alloc_max lim \<le> ssize_max lim" and "1 \<le> n" and "n \<le> 5"
  shows "star_display lim (PInt n) = Inr (nat n, nat (5 - n))"
  using assms by (auto simp: star_display_def num_key_def repeat_len_def)

lemma render_feedback_item_ok:
  assumes "wf_record fb" and "renderable fb" and "star_rating fb"
    and "5 \<le> alloc_max lim" and "alloc_max lim \<le> ssize_max lim"
  shows "render_feedback_item lim fb idx = Inr (idx, fb)"
proof -
  from assms(3) obtain n where n: "fb ''rating'' = Some (PInt n)" and "1 \<le> n" and "n \<le> 5"
    by (auto simp: star_rating_def rating_of_def split: option.splits pyval.splits)
  with assms(4,5) have st: "star_display lim (PInt n) = Inr (nat n, nat (5 - n))"
    by (simp add: star_display_five)
  from assms(1) have "is_text (fb ''sentiment'')"
    by (simp add: wf_record_def)
  from normalize_sentiment_text[of fb, OF this]
  obtain s where s: "normalize_sentiment fb = Inr s" ..
  from assms(2) obtain d r where d: "fb ''created_at'' = Some (PStr d)"
    and r: "fb ''review'' = Some r"
    by (auto simp: renderable_def split: option.splits pyval.splits)
  show ?thesis
    by (simp add: render_feedback_item_def s n d r dict_item_def str_key_def st)
qed

lemma render_items_ok:
  assumes "\<forall>x\<in>set xs. wf_record (snd x) \<and> renderable (snd x) \<and> star_rating (snd x)"
    and "5 \<le> alloc_max lim" and "alloc_max lim \<le> ssize_max lim"
  shows "render_items lim xs = (xs, None)"
  using assms
proof (induction lim xs rule: render_items.induct)
  case (1 lim)
  show ?case by simp
next
  case (2 lim idx feedback rest)
  from "2.prems" have item: "render_feedback_item lim feedback idx = Inr (idx, feedback)"
    by (simp add: render_feedback_item_ok)
  from "2.prems"
  have "\<forall>x\<in>set rest. wf_record (snd x) \<and> renderable (snd x) \<and> star_rating (snd x)"
    by simp
  with item have "render_items lim rest = (rest, None)"
    using "2.prems"(2,3) by (rule "2.IH")
  with item show ?case by simp
qed

text \<open>
  C8. When every \<open>created_at\<close> is a string or absent, the fetched list is sorted before
  it is filtered, and the sorted list \<open>ys\<close> is a rearrangement of the fetched one in
  descending order of \<open>created_at\<close>, an absent \<open>created_at\<close> counting as the empty
  string: after a record without \<open>created_at\<close> only records with an empty
  \<open>created_at\<close> text follow. Records with equal \<open>created_at\<close> keep their order.
\<close>

theorem feedbacks_sorted_by_created_at_descending:
  assumes "\<forall>fb\<in>set fbs. is_text (fb ''created_at'')"
  shows "\<exists>ys. sorted_reverse created_at_key fbs = Inr ys \<and>
    mset ys = mset fbs \<and>
    sorted_wrt (\<lambda>a b. created_text b \<le> created_text a) ys \<and>
    (\<forall>i j. i < j \<and> j < length ys \<and> (ys ! i) ''created_at'' = None \<longrightarrow>
       created_text (ys ! j) = []) \<and>
    (\<forall>k. filter (\<lambda>fb. created_text fb = k) ys = filter (\<lambda>fb. created_text fb = k) fbs) \<and>
    (fbs \<noteq> [] \<longrightarrow>
       feedback_section lim lower fbs rf sf q =
         (case filter_feedbacks lower ys rf sf q of
            Inl e \<Rightarrow> Inl e
          | Inr flt \<Rightarrow>
              Inr (FeedbackStream (length flt) (length ys)
                     (fst (render_items lim (enumerate 0 (take 20 flt))))
                     (snd (render_items lim (enumerate 0 (take 20 flt)))))))"
proof (intro exI[of _ "rev (sort_key created_text (rev fbs))"] conjI allI impI)
  let ?ys = "rev (sort_key created_text (rev fbs))"
  show res: "sorted_reverse created_at_key fbs = Inr ?ys"
    using assms by (rule sorted_reverse_created_at)
  show "mset ?ys = mset fbs"
    by simp
  show desc: "sorted_wrt (\<lambda>a b. created_text b \<le> created_text a) ?ys"
    by (rule rev_sort_rev_descending)
  show "filter (\<lambda>fb. created_text fb = k) ?ys = filter (\<lambda>fb. created_text fb = k) fbs" for k
    by (rule rev_sort_rev_stable)
  show "created_text (?ys ! j) = []"
    if "i < j \<and> j < length ?ys \<and> (?ys ! i) ''created_at'' = None" for i j
  proof -
    from that have "created_text (?ys ! i) = []"
      by (simp add: created_text_def field_text_def)
    moreover from desc that have "created_text (?ys ! j) \<le> created_text (?ys ! i)"
      by (simp only: sorted_wrt_iff_nth_less)
    ultimately show ?thesis
      by simp
  qed
  show "feedback_section lim lower fbs rf sf q =
      (case filter_feedbacks lower ?ys rf sf q of
         Inl e \<Rightarrow> Inl e
       | Inr flt \<Rightarrow>
           Inr (FeedbackStream (length flt) (length ?ys)
                  (fst (render_items lim (enumerate 0 (take 20 flt))))
                  (snd (render_items lim (enumerate 0 (take 20 flt))))))"
    if "fbs \<noteq> []"
    using that res by (rule feedback_section_sorted)
qed

lemmas sort_eval = sorted_reverse_def created_at_key_def dict_get_def str_key_def
  less_char_def less_eq_char_def

theorem feedbacks_sorted_by_created_at_descending_witness:
  "is_text ([''rating'' \<mapsto> PInt 5, ''review'' \<mapsto> PStr ''fast'', ''created_at'' \<mapsto> PStr ''2024-01-05''] ''created_at'') \<and>
   is_text ([''rating'' \<mapsto> PInt 3, ''review'' \<mapsto> PStr ''fine''] ''created_at'') \<and>
   is_text ([''rating'' \<mapsto> PInt 1, ''review'' \<mapsto> PStr ''slow'', ''created_at'' \<mapsto> PStr ''2024-02-01''] ''created_at'') \<and>
   sorted_reverse created_at_key
     [[''rating'' \<mapsto> PInt 5, ''review'' \<mapsto> PStr ''fast'', ''created_at'' \<mapsto> PStr ''2024-01-05''],
      [''rating'' \<mapsto> PInt 3, ''review'' \<mapsto> PStr ''fine''],
      [''rating'' \<mapsto> PInt 1, ''review'' \<mapsto> PStr ''slow'', ''created_at'' \<mapsto> PStr ''2024-02-01'']] =
   Inr [[''rating'' \<mapsto> PInt 1, ''review'' \<mapsto> PStr ''slow'', ''created_at'' \<mapsto> PStr ''2024-02-01''],
        [''rating'' \<mapsto> PInt 5, ''review'' \<mapsto> PStr ''fast'', ''created_at'' \<mapsto> PStr ''2024-01-05''],
        [''rating'' \<mapsto> PInt 3, ''review'' \<mapsto> PStr ''fine'']] \<and>
   feedback_section \<lparr>ssize_max = 9223372036854775807, alloc_max = 1000000\<rparr> ascii_lower
     [[''rating'' \<mapsto> PInt 5, ''review'' \<mapsto> PStr ''fast'', ''created_at'' \<mapsto> PStr ''2024-01-05''],
      [''rating'' \<mapsto> PInt 3, ''review'' \<mapsto> PStr ''fine''],
      [''rating'' \<mapsto> PInt 1, ''review'' \<mapsto> PStr ''slow'', ''created_at'' \<mapsto> PStr ''2024-02-01'']]
     [3, 5] [''Unknown''] [] =
   Inr (FeedbackStream 2 3
     [(0, [''rating'' \<mapsto> PInt 5, ''review'' \<mapsto> PStr ''fast'', ''created_at'' \<mapsto> PStr ''2024-01-05''])]
     (Some (KeyError ''created_at'')))"
proof -
  let ?a = "[''rating'' \<mapsto> PInt 5, ''review'' \<mapsto> PStr ''fast'', ''created_at'' \<mapsto> PStr ''2024-01-05''] :: feedback"
  let ?b = "[''rating'' \<mapsto> PInt 3, ''review'' \<mapsto> PStr ''fine''] :: feedback"
  let ?c = "[''rating'' \<mapsto> PInt 1, ''review'' \<mapsto> PStr ''slow'', ''created_at'' \<mapsto> PStr ''2024-02-01''] :: feedback"
  let ?lim = "\<lparr>ssize_max = 9223372036854775807, alloc_max = 1000000\<rparr>"
  have t: "is_text (?a ''created_at'')" "is_text (?b ''created_at'')" "is_text (?c ''created_at'')"
    by (simp_all add: is_text_def)
  then have h: "\<forall>fb\<in>set [?a, ?b, ?c]. is_text (fb ''created_at'')"
    by simp
  have s: "sorted_reverse created_at_key [?a, ?b, ?c] = Inr [?c, ?a, ?b]"
    by (simp add: sort_eval)
  have f: "filter_feedbacks ascii_lower [?c, ?a, ?b] [3, 5] [''Unknown''] [] = Inr [?a, ?b]"
    by (simp add: keeps_eval)
  have r: "render_items ?lim [(0, ?a), (Suc 0, ?b)] = ([(0, ?a)], Some (KeyError ''created_at''))"
    by (simp add: render_feedback_item_def normalize_eval rstrip_def dict_item_def str_key_def
        star_display_def repeat_len_def num_key_def)
  from feedbacks_sorted_by_created_at_descending[OF h, where lim = ?lim and lower = ascii_lower
      and rf = "[3, 5]" and sf = "[''Unknown'']" and q = "[]"]
  obtain ys where ys: "sorted_reverse created_at_key [?a, ?b, ?c] = Inr ys"
    and sec: "[?a, ?b, ?c] \<noteq> [] \<longrightarrow>
      feedback_section ?lim ascii_lower [?a, ?b, ?c] [3, 5] [''Unknown''] [] =
        (case filter_feedbacks ascii_lower ys [3, 5] [''Unknown''] [] of
           Inl e \<Rightarrow> Inl e
         | Inr flt \<Rightarrow>
             Inr (FeedbackStream (length flt) (length ys)
                    (fst (render_items ?lim (enumerate 0 (take 20 flt))))
                    (snd (render_items ?lim (enumerate 0 (take 20 flt))))))"
    by (elim exE conjE)
  from ys s have "ys = [?c, ?a, ?b]"
    by simp
  with sec f have "feedback_section ?lim ascii_lower [?a, ?b, ?c] [3, 5] [''Unknown''] [] =
      Inr (FeedbackStream 2 3
        (fst (render_items ?lim [(0, ?a), (Suc 0, ?b)])) (snd (render_items ?lim [(0, ?a), (Suc 0, ?b)])))"
    by simp
  then have "feedback_section ?lim ascii_lower [?a, ?b, ?c] [3, 5] [''Unknown''] [] =
      Inr (FeedbackStream 2 3 [(0, ?a)] (Some (KeyError ''created_at'')))"
    by (simp only: r fst_conv snd_conv)
  with t s show ?thesis
    by (intro conjI)
qed

text \<open>
  C9. On a non-empty fetched list of records of the data model, the two counts of the
  stats bar are the length of the whole filtered list and the length of the whole
  fetched list, and the items rendered are taken, in order, from the first 20 records of
  the filtered list only: they are all of these 20 when each of them has a
  \<open>created_at\<close> string and a review. The rating filter is a selection of the star
  values 1 to 5, as the multiselect offers them, and the interpreter can allocate a
  string of five characters. The case mapping is arbitrary.
\<close>

theorem display_capped_at_20_counts_uncapped:
  assumes recs: "\<forall>fb\<in>set fetched. wf_record fb \<and> is_text (fb ''created_at'')"
    and ne: "fetched \<noteq> []"
    and stars: "set rf \<subseteq> {1..5}"
    and mem: "5 \<le> alloc_max lim" "alloc_max lim \<le> ssize_max lim"
  shows "\<exists>srt flt v.
    sorted_reverse created_at_key fetched = Inr srt \<and> mset srt = mset fetched \<and>
    filter_feedbacks lower srt rf sf q = Inr flt \<and>
    flt = filter (\<lambda>fb. spec_keeps lower fb (set rf) (set sf) q) srt \<and>
    feedback_section lim lower fetched rf sf q = Inr v \<and>
    displaying v = length flt \<and>
    of_records v = length fetched \<and>
    prefix (rendered v) (enumerate 0 (take 20 flt)) \<and>
    ((\<forall>fb\<in>set (take 20 flt). renderable fb) \<longrightarrow>
       rendered v = enumerate 0 (take 20 flt) \<and> raised v = None)"
proof -
  let ?srt = "rev (sort_key created_text (rev fetched))"
  let ?flt = "filter (\<lambda>fb. spec_keeps lower fb (set rf) (set sf) q) ?srt"
  let ?page = "enumerate 0 (take 20 ?flt)"
  let ?v = "FeedbackStream (length ?flt) (length ?srt)
    (fst (render_items lim ?page)) (snd (render_items lim ?page))"
  have srt: "sorted_reverse created_at_key fetched = Inr ?srt"
    by (rule sorted_reverse_created_at) (simp add: recs)
  have wf: "\<forall>fb\<in>set ?srt. wf_record fb"
    using recs by simp
  then have flt: "filter_feedbacks lower ?srt rf sf q = Inr ?flt"
    by (rule filter_feedbacks_wf)
  have sec: "feedback_section lim lower fetched rf sf q = Inr ?v"
    using feedback_section_sorted[OF ne srt, of lim lower rf sf q] flt by simp
  have m: "mset ?srt = mset fetched"
    by simp
  have counts: "displaying ?v = length ?flt" "of_records ?v = length fetched"
    by simp_all
  have pre: "prefix (rendered ?v) ?page"
    by (simp add: render_items_prefix)
  have full: "rendered ?v = ?page \<and> raised ?v = None"
    if r: "\<forall>fb\<in>set (take 20 ?flt). renderable fb"
  proof -
    have sub: "set (take 20 ?flt) \<subseteq> set ?flt"
      by (rule set_take_subset)
    have "star_rating fb" if "fb \<in> set ?flt" for fb
    proof -
      from that have "spec_keeps lower fb (set rf) (set sf) q"
        by simp
      then obtain n where "rating_of fb = Some n" and "n \<in> set rf"
        by (auto simp: spec_keeps_def)
      with stars show ?thesis
        by (auto simp: star_rating_def)
    qed
    moreover have "wf_record fb" if "fb \<in> set ?flt" for fb
      using that wf by simp
    ultimately have "\<forall>fb\<in>set (take 20 ?flt). wf_record fb \<and> renderable fb \<and> star_rating fb"
      using sub r by blast
    moreover have "snd ` set ?page = set (take 20 ?flt)"
      by (metis list.set_map map_snd_enumerate)
    ultimately
    have "\<forall>x\<in>set ?page. wf_record (snd x) \<and> renderable (snd x) \<and> star_rating (snd x)"
      by blast
    then have "render_items lim ?page = (?page, None)"
      using mem by (rule render_items_ok)
    then show ?thesis
      by simp
  qed
  from full have full':
    "(\<forall>fb\<in>set (take 20 ?flt). renderable fb) \<longrightarrow> rendered ?v = ?page \<and> raised ?v = None"
    by (rule impI)
  show ?thesis
    by (intro exI[of _ ?srt] exI[of _ ?flt] exI[of _ ?v] conjI srt m flt refl sec counts pre full')
qed

theorem display_capped_at_20_counts_uncapped_witness:
  "\<exists>v. feedback_section \<lparr>ssize_max = 9223372036854775807, alloc_max = 1000000\<rparr> ascii_lower
     [[''rating'' \<mapsto> PInt 5, ''review'' \<mapsto> PStr ''ok'', ''created_at'' \<mapsto> PStr ''21''],
      [''rating'' \<mapsto> PInt 5, ''review'' \<mapsto> PStr ''ok'', ''created_at'' \<mapsto> PStr ''20''],
      [''rating'' \<mapsto> PInt 5, ''review'' \<mapsto> PStr ''ok'', ''created_at'' \<mapsto> PStr ''19''],
      [''rating'' \<mapsto> PInt 5, ''review'' \<mapsto> PStr ''ok'', ''created_at'' \<mapsto> PStr ''18''],
      [''rating'' \<mapsto> PInt 5, ''review'' \<mapsto> PStr ''ok'', ''created_at'' \<mapsto> PStr ''17''],
      [''rating'' \<mapsto> PInt 5, ''review'' \<mapsto> PStr ''ok'', ''created_at'' \<mapsto> PStr ''16''],
      [''rating'' \<mapsto> PInt 5, ''review'' \<mapsto> PStr ''ok'', ''created_at'' \<mapsto> PStr ''15''],
      [''rating'' \<mapsto> PInt 5, ''review'' \<mapsto> PStr ''ok'', ''created_at'' \<mapsto> PStr ''14''],
      [''rating'' \<mapsto> PInt 5, ''review'' \<mapsto> PStr ''ok'', ''created_at'' \<mapsto> PStr ''13''],
      [''rating'' \<mapsto> PInt 5, ''review'' \<mapsto> PStr ''ok'', ''created_at'' \<mapsto> PStr ''12''],
      [''rating'' \<mapsto> PInt 5, ''review'' \<mapsto> PStr ''ok'', ''created_at'' \<mapsto> PStr ''11''],
      [''rating'' \<mapsto> PInt 5, ''review'' \<mapsto> PStr ''ok'', ''created_at'' \<mapsto> PStr ''10''],
      [''rating'' \<mapsto> PInt 5, ''review'' \<mapsto> PStr ''ok'', ''created_at'' \<mapsto> PStr ''09''],
      [''rating'' \<mapsto> PInt 5, ''review'' \<mapsto> PStr ''ok'', ''created_at'' \<mapsto> PStr ''08''],
      [''rating'' \<mapsto> PInt 5, ''review'' \<mapsto> PStr ''ok'', ''created_at'' \<mapsto> PStr ''07''],
      [''rating'' \<mapsto> PInt 5, ''review'' \<mapsto> PStr ''ok'', ''created_at'' \<mapsto> PStr ''06''],
      [''rating'' \<mapsto> PInt 5, ''review'' \<mapsto> PStr ''ok'', ''created_at'' \<mapsto> PStr ''05''],
      [''rating'' \<mapsto> PInt 5, ''review'' \<mapsto> PStr ''ok'', ''created_at'' \<mapsto> PStr ''04''],
      [''rating'' \<mapsto> PInt 5, ''review'' \<mapsto> PStr ''ok'', ''created_at'' \<mapsto> PStr ''03''],
      [''rating'' \<mapsto> PInt 5, ''review'' \<mapsto> PStr ''ok'', ''created_at'' \<mapsto> PStr ''02''],
      [''rating'' \<mapsto> PInt 5, ''review'' \<mapsto> PStr ''ok'', ''created_at'' \<mapsto> PStr ''01'']]
     [5] [''Unknown''] [] = Inr v \<and>
     length (rendered v) = 20 \<and> raised v = None \<and> displaying v = 21 \<and> of_records v = 21"
proof -
  let ?recs = "[[''rating'' \<mapsto> PInt 5, ''review'' \<mapsto> PStr ''ok'', ''created_at'' \<mapsto> PStr ''21''],
      [''rating'' \<mapsto> PInt 5, ''review'' \<mapsto> PStr ''ok'', ''created_at'' \<mapsto> PStr ''20''],
      [''rating'' \<mapsto> PInt 5, ''review'' \<mapsto> PStr ''ok'', ''created_at'' \<mapsto> PStr ''19''],
      [''rating'' \<mapsto> PInt 5, ''review'' \<mapsto> PStr ''ok'', ''created_at'' \<mapsto> PStr ''18''],
      [''rating'' \<mapsto> PInt 5, ''review'' \<mapsto> PStr ''ok'', ''created_at'' \<mapsto> PStr ''17''],
      [''rating'' \<mapsto> PInt 5, ''review'' \<mapsto> PStr ''ok'', ''created_at'' \<mapsto> PStr ''16''],
      [''rating'' \<mapsto> PInt 5, ''review'' \<mapsto> PStr ''ok'', ''created_at'' \<mapsto> PStr ''15''],
      [''rating'' \<mapsto> PInt 5, ''review'' \<mapsto> PStr ''ok'', ''created_at'' \<mapsto> PStr ''14''],
      [''rating'' \<mapsto> PInt 5, ''review'' \<mapsto> PStr ''ok'', ''created_at'' \<mapsto> PStr ''13''],
      [''rating'' \<mapsto> PInt 5, ''review'' \<mapsto> PStr ''ok'', ''created_at'' \<mapsto> PStr ''12''],
      [''rating'' \<mapsto> PInt 5, ''review'' \<mapsto> PStr ''ok'', ''created_at'' \<mapsto> PStr ''11''],
      [''rating'' \<mapsto> PInt 5, ''review'' \<mapsto> PStr ''ok'', ''created_at'' \<mapsto> PStr ''10''],
      [''rating'' \<mapsto> PInt 5, ''review'' \<mapsto> PStr ''ok'', ''created_at'' \<mapsto> PStr ''09''],
      [''rating'' \<mapsto> PInt 5, ''review'' \<mapsto> PStr ''ok'', ''created_at'' \<mapsto> PStr ''08''],
      [''rating'' \<mapsto> PInt 5, ''review'' \<mapsto> PStr ''ok'', ''created_at'' \<mapsto> PStr ''07''],
      [''rating'' \<mapsto> PInt 5, ''review'' \<mapsto> PStr ''ok'', ''created_at'' \<mapsto> PStr ''06''],
      [''rating'' \<mapsto> PInt 5, ''review'' \<mapsto> PStr ''ok'', ''created_at'' \<mapsto> PStr ''05''],
      [''rating'' \<mapsto> PInt 5, ''review'' \<mapsto> PStr ''ok'', ''created_at'' \<mapsto> PStr ''04''],
      [''rating'' \<mapsto> PInt 5, ''review'' \<mapsto> PStr ''ok'', ''created_at'' \<mapsto> PStr ''03''],
      [''rating'' \<mapsto> PInt 5, ''review'' \<mapsto> PStr ''ok'', ''created_at'' \<mapsto> PStr ''02''],
      [''rating'' \<mapsto> PInt 5, ''review'' \<mapsto> PStr ''ok'', ''created_at'' \<mapsto> PStr ''01'']] :: feedback list"
  let ?lim = "\<lparr>ssize_max = 9223372036854775807, alloc_max = 1000000\<rparr>"
  have h: "\<forall>fb\<in>set ?recs. wf_record fb \<and> is_text (fb ''created_at'')"
    by (simp add: wf_eval)
  have ne: "?recs \<noteq> []"
    by simp
  have st: "set [5] \<subseteq> {1..5::int}"
    by simp
  have mem: "5 \<le> alloc_max ?lim" "alloc_max ?lim \<le> ssize_max ?lim"
    by simp_all
  have all: "\<forall>fb\<in>set ?recs. spec_keeps ascii_lower fb (set [5]) (set [''Unknown'']) []"
    by (simp add: spec_keeps_def rating_of_def normalize_eval rstrip_def)
  have rd: "\<forall>fb\<in>set ?recs. renderable fb"
    by (simp add: renderable_def)
  from display_capped_at_20_counts_uncapped[OF h ne st mem, where lower = ascii_lower
      and sf = "[''Unknown'']" and q = "[]"]
  obtain srt flt v where m: "mset srt = mset ?recs"
    and flt: "flt = filter (\<lambda>fb. spec_keeps ascii_lower fb (set [5]) (set [''Unknown'']) []) srt"
    and v: "feedback_section ?lim ascii_lower ?recs [5] [''Unknown''] [] = Inr v"
    and d: "displaying v = length flt" and t: "of_records v = length ?recs"
    and shown: "(\<forall>fb\<in>set (take 20 flt). renderable fb) \<longrightarrow>
      rendered v = enumerate 0 (take 20 flt) \<and> raised v = None"
    by (elim exE conjE)
  from m have same: "set srt = set ?recs"
    by (rule mset_eq_setD)
  with all have "\<forall>fb\<in>set srt. spec_keeps ascii_lower fb (set [5]) (set [''Unknown'']) []"
    by (simp only:)
  with flt have fs: "flt = srt"
    by simp
  moreover from m have "length srt = length ?recs"
    by (rule mset_eq_length)
  ultimately have len: "length flt = 21"
    by simp
  have "set (take 20 flt) \<subseteq> set ?recs"
    using set_take_subset[of 20 flt] fs same by (simp only:)
  with rd have "\<forall>fb\<in>set (take 20 flt). renderable fb"
    by blast
  with shown have rv: "rendered v = enumerate 0 (take 20 flt)" and ok: "raised v = None"
    by simp_all
  have "length (rendered v) = 20"
    using len by (simp add: rv)
  moreover have "displaying v = 21"
    using d len by simp
  moreover have "of_records v = 21"
    using t by simp
  ultimately show ?thesis
    using v ok by (intro exI[of _ v] conjI)
qed

end
